theory Spec2Isabelle
  imports Complex_Main "HOL-Library.Log_Nat"
begin

section \<open>Python values and exceptions\<close>

text \<open>
  The scripts are Python. A value that crosses the boundary to the remote service (the
  parsed JSON body, the value a responder returns) is a \<open>pyval\<close>; a raised exception
  is an \<open>exn\<close> carrying the text that \<open>str(e)\<close> yields. Only subclasses of
  \<open>Exception\<close> are modelled: they are what \<open>except Exception\<close> catches.
\<close>

datatype exn =
    ValueError string
  | AttributeError string
  | TypeError string
  | KeyError string
  | IndexError string
  | ZeroDivisionError string
  | ConnectionError string
  | JSONDecodeError string
  | RuntimeError string

fun str_exn :: "exn \<Rightarrow> string" where
  "str_exn (ValueError m) = m"
| "str_exn (AttributeError m) = m"
| "str_exn (TypeError m) = m"
| "str_exn (KeyError m) = m"
| "str_exn (IndexError m) = m"
| "str_exn (ZeroDivisionError m) = m"
| "str_exn (ConnectionError m) = m"
| "str_exn (JSONDecodeError m) = m"
| "str_exn (RuntimeError m) = m"

datatype pyval =
    VNone
  | VBool bool
  | VInt int
  | VFloat real
  | VStr string
  | VList "pyval list"
  | VDict "(string \<times> pyval) list"
  | VArray pyval

fun type_name :: "pyval \<Rightarrow> string" where
  "type_name VNone = ''NoneType''"
| "type_name (VBool b) = ''bool''"
| "type_name (VInt i) = ''int''"
| "type_name (VFloat x) = ''float''"
| "type_name (VStr s) = ''str''"
| "type_name (VList vs) = ''list''"
| "type_name (VDict kvs) = ''dict''"
| "type_name (VArray v) = ''numpy.ndarray''"

text \<open>A name between single quotes, as error messages print it.\<close>

definition quoted :: "string \<Rightarrow> string" where
  "quoted s = [CHR 0x27] @ s @ [CHR 0x27]"

text \<open>The AttributeError for a method the value does not have.\<close>

definition no_attribute :: "pyval \<Rightarrow> string \<Rightarrow> exn" where
  "no_attribute v name =
     AttributeError (quoted (type_name v) @ '' object has no attribute '' @ quoted name)"

text \<open>\<open>d.get(key, dflt)\<close>: only a dict has the method.\<close>

definition py_get :: "pyval \<Rightarrow> string \<Rightarrow> pyval \<Rightarrow> exn + pyval" where
  "py_get d key dflt =
     (case d of
        VDict kvs \<Rightarrow> (case map_of kvs key of Some v \<Rightarrow> Inr v | None \<Rightarrow> Inr dflt)
      | _ \<Rightarrow> Inl (no_attribute d ''get''))"

fun is_substring :: "string \<Rightarrow> string \<Rightarrow> bool" where
  "is_substring xs [] = (xs = [])"
| "is_substring xs (y # ys) = (take (length xs) (y # ys) = xs \<or> is_substring xs ys)"

text \<open>\<open>key in container\<close> for a string key: key membership in a dict, element
  membership in a list, substring test in a string, TypeError for a value that is not
  iterable.\<close>

definition py_in :: "string \<Rightarrow> pyval \<Rightarrow> exn + bool" where
  "py_in key c =
     (case c of
        VDict kvs \<Rightarrow> Inr (map_of kvs key \<noteq> None)
      | VList vs \<Rightarrow> Inr (VStr key \<in> set vs)
      | VStr s \<Rightarrow> Inr (is_substring key s)
      | _ \<Rightarrow> Inl (TypeError (''argument of type '' @ quoted (type_name c) @ '' is not iterable'')))"

text \<open>\<open>container[key]\<close> for a string key.\<close>

definition py_getitem :: "pyval \<Rightarrow> string \<Rightarrow> exn + pyval" where
  "py_getitem c key =
     (case c of
        VDict kvs \<Rightarrow> (case map_of kvs key of Some v \<Rightarrow> Inr v | None \<Rightarrow> Inl (KeyError key))
      | VList vs \<Rightarrow> Inl (TypeError ''list indices must be integers or slices, not str'')
      | VStr s \<Rightarrow> Inl (TypeError ''string indices must be integers'')
      | _ \<Rightarrow> Inl (TypeError (quoted (type_name c) @ '' object is not subscriptable'')))"

text \<open>\<open>s.split()\<close> with no argument is \<open>split_ws [] s\<close>: the maximal runs of
  non-whitespace. Only a string has the method.\<close>

definition is_space :: "char \<Rightarrow> bool" where
  "is_space c = (c \<in> set [CHR 0x09, CHR 0x0A, CHR 0x0B, CHR 0x0C, CHR 0x0D,
                           CHR 0x1C, CHR 0x1D, CHR 0x1E, CHR 0x1F, CHR 0x20])"

fun split_ws :: "string \<Rightarrow> string \<Rightarrow> string list" where
  "split_ws cur [] = (if cur = [] then [] else [cur])"
| "split_ws cur (c # cs) =
     (if is_space c then (if cur = [] then split_ws [] cs else cur # split_ws [] cs)
      else split_ws (cur @ [c]) cs)"

text \<open>\<open>xs[i]\<close> on a list of length \<open>n\<close>: the positions \<open>0 .. n-1\<close> are read
  directly, the positions \<open>-n .. -1\<close> are read from the end, every other position
  raises IndexError.\<close>

definition py_index :: "'a list \<Rightarrow> int \<Rightarrow> exn + 'a" where
  "py_index xs i =
     (if 0 \<le> i \<and> i < int (length xs) then Inr (xs ! nat i)
      else if i < 0 \<and> - int (length xs) \<le> i then Inr (xs ! nat (int (length xs) + i))
      else Inl (IndexError ''list index out of range''))"

section \<open>Floating-point arithmetic\<close>

text \<open>
  A Python \<open>float\<close> is an IEEE-754 binary64 number. It is modelled as the real number it
  denotes, and every arithmetic operation rounds its exact result to the nearest number
  with a 53-bit significand, ties to the even significand (\<open>fl\<close>). The exponent range
  is not bounded: the model agrees with binary64 as long as no intermediate result
  overflows or becomes subnormal, which elapsed times in milliseconds never do.
\<close>

definition rne :: "real \<Rightarrow> int" where
  "rne x = (let f = \<lfloor>x\<rfloor>; d = x - of_int f
            in if d < 1/2 then f else if 1/2 < d then f + 1
               else if even f then f else f + 1)"

text \<open>\<open>ilog2 x\<close> is the binary exponent of a positive \<open>x\<close>: \<open>2^e \<le> x < 2^(e+1)\<close>.\<close>

definition ilog2 :: "real \<Rightarrow> int" where
  "ilog2 x = (if 1 \<le> x then int (floorlog 2 (nat \<lfloor>x\<rfloor>)) - 1
              else - int (floorlog 2 (nat (\<lceil>1 / x\<rceil> - 1))))"

definition fl :: "real \<Rightarrow> real" where
  "fl x = (if x = 0 then 0
           else let e = ilog2 \<bar>x\<bar> - 52
                in sgn x * (of_int (rne (\<bar>x\<bar> / 2 powi e)) * 2 powi e))"

definition fadd :: "real \<Rightarrow> real \<Rightarrow> real" where
  "fadd a b = fl (a + b)"

definition fsub :: "real \<Rightarrow> real \<Rightarrow> real" where
  "fsub a b = fl (a - b)"

definition fmul :: "real \<Rightarrow> real \<Rightarrow> real" where
  "fmul a b = fl (a * b)"

definition fdiv :: "real \<Rightarrow> real \<Rightarrow> exn + real" where
  "fdiv a b = (if b = 0 then Inl (ZeroDivisionError ''float division by zero'')
               else Inr (fl (a / b)))"

text \<open>\<open>x ** 2\<close> and \<open>x ** 0.5\<close>. The base of \<open>** 0.5\<close> is a sum of squares
  divided by a count, hence never negative (for a negative base Python would return a
  complex number). The root is taken as correctly rounded; the results below use only
  that it is 0 at 0 and positive elsewhere.\<close>

definition fsq :: "real \<Rightarrow> real" where
  "fsq x = fl (x * x)"

definition fpow_half :: "real \<Rightarrow> real" where
  "fpow_half x = fl (sqrt x)"

text \<open>An \<open>int\<close> operand of a float operation is converted first.\<close>

definition float_of_int :: "int \<Rightarrow> real" where
  "float_of_int n = fl (of_int n)"

text \<open>\<open>int(x)\<close> truncates towards zero.\<close>

definition py_int :: "real \<Rightarrow> int" where
  "py_int x = (if 0 \<le> x then \<lfloor>x\<rfloor> else \<lceil>x\<rceil>)"

text \<open>\<open>sum(xs)\<close> of floats adds from the left, starting from 0. (CPython from 3.12
  on also carries a compensation term. The results below use the sign of a sum, the
  sum of zeros, and sums of concrete lists on which both variants give the same
  float.)\<close>

definition fsum :: "real list \<Rightarrow> real" where
  "fsum xs = foldl fadd 0 xs"

definition py_min :: "real list \<Rightarrow> exn + real" where
  "py_min xs = (case xs of [] \<Rightarrow> Inl (ValueError ''min() arg is an empty sequence'')
                | x # rest \<Rightarrow> Inr (foldl min x rest))"

definition py_max :: "real list \<Rightarrow> exn + real" where
  "py_max xs = (case xs of [] \<Rightarrow> Inl (ValueError ''max() arg is an empty sequence'')
                | x # rest \<Rightarrow> Inr (foldl max x rest))"

section \<open>CloudflareWorker (examples/lightrag\_hf\_cloudflare\_dataset\_demo.py)\<close>

record CloudflareWorker =
  cloudflare_api_key :: string
  api_base_url :: string
  llm_model_name :: string
  embedding_model_name :: string
  max_tokens :: int
  max_response_tokens :: int

text \<open>
  What \<open>requests.post(url, headers=..., json=...).json()\<close> does is decided by the
  network: the post itself may raise, decoding the body may raise, or a JSON value comes
  back. The network is a function of an abstract world \<open>'w\<close>, which it may change.
  \<open>np.array\<close> is a library function that may raise as well; it is a parameter.
\<close>

datatype http_outcome = PostRaises exn | JsonRaises exn | JsonBody pyval

type_synonym 'w http_post =
  "string \<Rightarrow> (string \<times> string) list \<Rightarrow> pyval \<Rightarrow> 'w \<Rightarrow> http_outcome \<times> 'w"

text \<open>The body of the \<open>try\<close> block of \<open>_send_request\<close>.\<close>

definition send_request_try :: "(pyval \<Rightarrow> exn + pyval) \<Rightarrow> http_outcome \<Rightarrow> exn + pyval" where
  "send_request_try np_array outcome =
     (case outcome of
        PostRaises e \<Rightarrow> Inl e
      | JsonRaises e \<Rightarrow> Inl e
      | JsonBody response_raw \<Rightarrow>
         (case py_get response_raw ''result'' (VDict []) of
            Inl e \<Rightarrow> Inl e
          | Inr result \<Rightarrow>
             (case py_in ''data'' result of
                Inl e \<Rightarrow> Inl e
              | Inr True \<Rightarrow>
                 (case py_getitem result ''data'' of
                    Inl e \<Rightarrow> Inl e
                  | Inr d \<Rightarrow> np_array d)
              | Inr False \<Rightarrow>
                 (case py_in ''response'' result of
                    Inl e \<Rightarrow> Inl e
                  | Inr True \<Rightarrow> py_getitem result ''response''
                  | Inr False \<Rightarrow> Inl (ValueError ''Unexpected Cloudflare response format'')))))"

text \<open>\<open>_send_request\<close>: the handler logs the error and returns \<open>None\<close>.\<close>

definition send_request ::
  "'w http_post \<Rightarrow> (pyval \<Rightarrow> exn + pyval) \<Rightarrow> CloudflareWorker \<Rightarrow> string \<Rightarrow> pyval \<Rightarrow> string
     \<Rightarrow> 'w \<Rightarrow> (exn + pyval) \<times> 'w" where
  "send_request post np_array self model_name input debug_log w =
     (let headers = [(''Authorization'', ''Bearer '' @ cloudflare_api_key self)];
          (outcome, w') = post (api_base_url self @ model_name) headers input w
      in (case send_request_try np_array outcome of
            Inl e \<Rightarrow> (Inr VNone, w')
          | Inr v \<Rightarrow> (Inr v, w')))"

definition query ::
  "'w http_post \<Rightarrow> (pyval \<Rightarrow> exn + pyval) \<Rightarrow> CloudflareWorker \<Rightarrow> string \<Rightarrow> string
     \<Rightarrow> 'w \<Rightarrow> (exn + pyval) \<times> 'w" where
  "query post np_array self prompt system_prompt w =
     (let message = VList [VDict [(''role'', VStr ''system''), (''content'', VStr system_prompt)],
                           VDict [(''role'', VStr ''user''), (''content'', VStr prompt)]];
          input = VDict [(''messages'', message),
                         (''max_tokens'', VInt (max_tokens self)),
                         (''response_token_limit'', VInt (max_response_tokens self))]
      in send_request post np_array self (llm_model_name self) input
           (''LLM Query - Model: '' @ llm_model_name self @ '', Prompt: ''
              @ take 100 prompt @ ''...'') w)"

section \<open>KrishnaQueryDemonstrator (krishna\_ai\_query\_demo.py)\<close>

text \<open>
  The responder is whatever object sits in \<open>self.cloudflare_worker\<close>: its \<open>query\<close>
  method takes the prompt and the system prompt and returns a value or raises. The
  clock \<open>time.perf_counter\<close> and \<open>asyncio.sleep\<close> belong to the runtime. All three act
  on the abstract world \<open>'w\<close>, so a responder may depend on the time, on earlier calls,
  or on nothing but its prompt. They are functions: a call to the responder comes back,
  with a value or an exception, and a sleep ends.
\<close>

type_synonym 'w responder = "string \<Rightarrow> string \<Rightarrow> 'w \<Rightarrow> (exn + pyval) \<times> 'w"

record 'w runtime =
  perf_counter :: "'w \<Rightarrow> real \<times> 'w"
  sleep :: "real \<Rightarrow> 'w \<Rightarrow> 'w"

text \<open>One entry of \<open>self.results\<close>: the dict with the keys \<open>question_number\<close>,
  \<open>question\<close>, \<open>response_time\<close> and \<open>answer_length\<close>.\<close>

record query_record =
  res_question_number :: int
  res_question :: string
  res_response_time :: real
  res_answer_length :: int

record 'w demonstrator =
  start_time :: real
  results :: "query_record list"
  response_times :: "real list"
  cloudflare_worker :: "'w responder option"
  connectivity_issues :: int
  successful_queries :: int
  total_tokens_estimated :: int

text \<open>\<open>__init__\<close>, given the reading of \<open>time.time()\<close>.\<close>

definition init :: "real \<Rightarrow> 'w demonstrator" where
  "init now = \<lparr> start_time = now, results = [], response_times = [],
                cloudflare_worker = None, connectivity_issues = 0,
                successful_queries = 0, total_tokens_estimated = 0 \<rparr>"

definition system_prompt :: string where
  "system_prompt =
     ''You are an expert on Hindu mythology, philosophy, and culture.\<newline>''
   @ ''            Provide accurate, educational, and insightful answers about Krishna, drawing from\<newline>''
   @ ''            authentic Hindu scriptures, traditions, and scholarly interpretations.\<newline>''
   @ ''            Be comprehensive but concise, and maintain cultural sensitivity.''"

definition mock_response :: string where
  "mock_response = ''Mock response: Krishna is a central figure in Hindu tradition, known for his teachings in the Bhagavad Gita and his divine pastimes.''"

text \<open>
  \<open>query_krishna_topic\<close>. The inner handler turns an exception of the responder into
  the response text \<open>Connection Error: ...\<close> and execution goes on to the second clock
  reading. The outer handler is reached when \<open>response.split()\<close> raises, that is when
  the responder returned something that is not a string; by then the counters and
  \<open>response_times\<close> have been updated.
\<close>

definition query_krishna_topic ::
  "'w runtime \<Rightarrow> string \<Rightarrow> int \<Rightarrow> 'w demonstrator \<Rightarrow> 'w
     \<Rightarrow> (string \<times> real) \<times> 'w demonstrator \<times> 'w" where
  "query_krishna_topic rt question question_number self w =
     (let (start, w1) = perf_counter rt w;
          (response, self1, w2) =
            (case cloudflare_worker self of
               Some worker \<Rightarrow>
                 (case worker question system_prompt w1 of
                    (Inr r, w') \<Rightarrow>
                      (r, self\<lparr>successful_queries := successful_queries self + 1\<rparr>, w')
                  | (Inl conn_error, w') \<Rightarrow>
                      (VStr (''Connection Error: '' @ str_exn conn_error),
                       self\<lparr>connectivity_issues := connectivity_issues self + 1\<rparr>, w'))
             | None \<Rightarrow> (VStr mock_response, self, w1));
          (end_time, w3) = perf_counter rt w2;
          response_time_ms = fmul (fsub end_time start) 1000;
          self2 = self1\<lparr>response_times := response_times self1 @ [response_time_ms]\<rparr>
      in (case response of
            VStr text \<Rightarrow>
              ((text, response_time_ms),
               self2\<lparr>total_tokens_estimated := total_tokens_estimated self2
                        + (int (length (split_ws [] question)) + int (length (split_ws [] text)))\<rparr>,
               w3)
          | _ \<Rightarrow>
              ((''Error: '' @ str_exn (no_attribute response ''split''), 0),
               self2\<lparr>connectivity_issues := connectivity_issues self2 + 1\<rparr>, w3)))"

text \<open>
  \<open>format_result\<close> returns an f-string. It is kept as the list of its parts, a literal
  or a filled hole each, so the values in the holes can be read back.
\<close>

datatype piece = Lit string | IntHole int | Float2Hole real | StrHole string

definition format_result :: "int \<Rightarrow> string \<Rightarrow> real \<Rightarrow> string \<Rightarrow> piece list" where
  "format_result question_number question response_time answer =
     [Lit ''Question '', IntHole question_number, Lit '': '', StrHole question,
      Lit ''\<newline>Response Time: '', Float2Hole response_time,
      Lit '' ms\<newline>Answer: '', StrHole answer,
      Lit (''\<newline>\<newline>'' @ replicate 80 (CHR ''='') @ ''\<newline>'')]"

text \<open>
  \<open>run_queries_batch\<close>. The inner loop \<open>for i, question in enumerate(batch_questions,
  batch_start + 1)\<close> is \<open>process_batch\<close>; the outer loop \<open>for batch_start in range(0,
  total_questions, batch_size)\<close> is \<open>batch_loop\<close>. The loop state is the list under
  construction, the demonstrator and the world.
\<close>

fun process_batch ::
  "'w runtime \<Rightarrow> real \<Rightarrow> int \<Rightarrow> int \<Rightarrow> string list
     \<Rightarrow> piece list list \<times> 'w demonstrator \<times> 'w
     \<Rightarrow> piece list list \<times> 'w demonstrator \<times> 'w" where
  "process_batch rt delay total_questions i [] s = s"
| "process_batch rt delay total_questions i (question # rest) (formatted_results, self, w) =
     (let ((answer, response_time), self1, w1) = query_krishna_topic rt question i self w;
          self2 = self1\<lparr>results := results self1 @
                    [\<lparr> res_question_number = i, res_question = question,
                       res_response_time = response_time,
                       res_answer_length = int (length answer) \<rparr>]\<rparr>;
          formatted_results' = formatted_results @ [format_result i question response_time answer];
          w2 = (if 0 < delay \<and> i < total_questions then sleep rt delay w1 else w1)
      in process_batch rt delay total_questions (i + 1) rest (formatted_results', self2, w2))"

function batch_loop ::
  "'w runtime \<Rightarrow> string list \<Rightarrow> real \<Rightarrow> nat \<Rightarrow> nat
     \<Rightarrow> piece list list \<times> 'w demonstrator \<times> 'w
     \<Rightarrow> piece list list \<times> 'w demonstrator \<times> 'w" where
  "batch_loop rt questions delay batch_size batch_start s =
     (if batch_start < length questions \<and> 0 < batch_size then
        (let total_questions = length questions;
             batch_end = min (batch_start + batch_size) total_questions;
             batch_questions = take (batch_end - batch_start) (drop batch_start questions)
         in batch_loop rt questions delay batch_size (batch_start + batch_size)
              (process_batch rt delay (int total_questions) (int batch_start + 1)
                 batch_questions s))
      else s)"
  by pat_completeness auto
termination
  by (relation "measure (\<lambda>(rt, questions, delay, batch_size, batch_start, s).
                  length questions - batch_start)") auto

text \<open>\<open>range(0, n, 0)\<close> raises ValueError; with a negative step the range from 0 up
  to \<open>n\<close> is empty and the loop body never runs.\<close>

definition run_queries_batch ::
  "'w runtime \<Rightarrow> string list \<Rightarrow> real \<Rightarrow> int \<Rightarrow> 'w demonstrator \<Rightarrow> 'w
     \<Rightarrow> exn + piece list list \<times> 'w demonstrator \<times> 'w" where
  "run_queries_batch rt questions delay batch_size self w =
     (if batch_size = 0 then Inl (ValueError ''range() arg 3 must not be zero'')
      else if batch_size < 0 then Inr ([], self, w)
      else Inr (batch_loop rt questions delay (nat batch_size) 0 ([], self, w)))"

text \<open>
  Sequencing of two computations that may raise: the second runs on the value of the
  first, an exception of the first is the exception of the whole.
\<close>

definition and_then :: "exn + 'a \<Rightarrow> ('a \<Rightarrow> exn + 'b) \<Rightarrow> exn + 'b" where
  "and_then m f = (case m of Inl e \<Rightarrow> Inl e | Inr v \<Rightarrow> f v)"

text \<open>
  \<open>analyze_latency_patterns\<close>. The dict display is evaluated entry by entry, so the
  first failing index access or division decides the exception. The result \<open>{}\<close> is
  the empty map. The argument \<open>recorded\<close> is \<open>self.response_times\<close>; the source's
  list \<open>times\<close> is \<open>ts\<close> here.
\<close>

definition std_deviation :: "real list \<Rightarrow> exn + real" where
  "std_deviation ts =
     and_then (fdiv (fsum ts) (float_of_int (int (length ts)))) (\<lambda>mean.
     and_then (fdiv (fsum (map (\<lambda>t. fsq (fsub t mean)) ts))
                    (float_of_int (int (length ts)))) (\<lambda>v.
     Inr (fpow_half v)))"

definition consistency_score :: "real list \<Rightarrow> exn + real" where
  "consistency_score ts =
     and_then (py_max ts) (\<lambda>mx.
     and_then (py_min ts) (\<lambda>mn.
     and_then (fdiv (fsub mx mn) (fsum ts)) (\<lambda>q.
     Inr (fsub 1 (fmul q (float_of_int (int (length ts))))))))"

definition p95_index :: "nat \<Rightarrow> int" where
  "p95_index n = py_int (fmul (float_of_int (int n)) (fl (95 / 100)))"

definition p99_index :: "nat \<Rightarrow> int" where
  "p99_index n = py_int (fmul (float_of_int (int n)) (fl (99 / 100)))"

definition analyze_latency_patterns :: "real list \<Rightarrow> exn + (string \<rightharpoonup> real)" where
  "analyze_latency_patterns recorded =
     (if recorded = [] then Inr Map.empty
      else
        let ts = filter (\<lambda>t. 0 < t) recorded
        in if ts = [] then Inr Map.empty
           else
             and_then (py_min ts) (\<lambda>mn.
             and_then (py_max ts) (\<lambda>mx.
             and_then (py_index (sort ts) (int (length ts) div 2)) (\<lambda>med.
             and_then (py_index (sort ts) (p95_index (length ts))) (\<lambda>p95.
             and_then (py_index (sort ts) (p99_index (length ts))) (\<lambda>p99.
             and_then (std_deviation ts) (\<lambda>sd.
             and_then (consistency_score ts) (\<lambda>cs.
               Inr (map_of [(''min_latency'', mn), (''max_latency'', mx),
                            (''median_latency'', med), (''p95_latency'', p95),
                            (''p99_latency'', p99), (''std_deviation'', sd),
                            (''consistency_score'', cs)])))))))))"

text \<open>
  \<open>generate_summary\<close> builds a report string. The record holds the numbers it prints;
  \<open>None\<close> stands for the text \<open>No results to summarize.\<close> A missing statistic prints
  as the default 0 of \<open>latency_analysis.get(key, 0)\<close>. The argument \<open>now\<close> is the
  reading of \<open>time.time()\<close>.
\<close>

record summary =
  total_questions :: int
  total_time :: real
  successful :: int
  failed :: int
  success_rate :: real
  avg_response_time :: real
  avg_answer_length :: real
  min_latency :: real
  max_latency :: real
  median_latency :: real
  p95_latency :: real
  p99_latency :: real
  std_dev :: real
  consistency :: real
  processing_rate :: real

definition get_or :: "(string \<rightharpoonup> real) \<Rightarrow> string \<Rightarrow> real \<Rightarrow> real" where
  "get_or d key dflt = (case d key of Some v \<Rightarrow> v | None \<Rightarrow> dflt)"

definition int_truediv :: "int \<Rightarrow> int \<Rightarrow> exn + real" where
  "int_truediv a b = (if b = 0 then Inl (ZeroDivisionError ''division by zero'')
                      else Inr (fl (of_int a / of_int b)))"

definition generate_summary :: "'w demonstrator \<Rightarrow> real \<Rightarrow> exn + summary option" where
  "generate_summary self now =
     (if results self = [] then Inr None
      else
        let elapsed = fsub now (start_time self);
            valid_times = filter (\<lambda>t. 0 < t) (map res_response_time (results self));
            n = int (length (results self))
        in
          and_then (if valid_times \<noteq> []
                    then fdiv (fsum valid_times) (float_of_int (int (length valid_times)))
                    else Inr 0) (\<lambda>avg_rt.
          and_then (int_truediv (sum_list (map res_answer_length (results self))) n) (\<lambda>avg_len.
          and_then (analyze_latency_patterns (response_times self)) (\<lambda>latency_analysis.
          and_then (if 0 < n
                    then and_then (int_truediv (successful_queries self) n) (\<lambda>r. Inr (fmul r 100))
                    else Inr 0) (\<lambda>rate.
          and_then (fdiv (float_of_int n) elapsed) (\<lambda>per_second.
            Inr (Some \<lparr> total_questions = n, total_time = elapsed,
                        successful = successful_queries self,
                        failed = connectivity_issues self,
                        success_rate = rate,
                        avg_response_time = avg_rt,
                        avg_answer_length = avg_len,
                        min_latency = get_or latency_analysis ''min_latency'' 0,
                        max_latency = get_or latency_analysis ''max_latency'' 0,
                        median_latency = get_or latency_analysis ''median_latency'' 0,
                        p95_latency = get_or latency_analysis ''p95_latency'' 0,
                        p99_latency = get_or latency_analysis ''p99_latency'' 0,
                        std_dev = get_or latency_analysis ''std_deviation'' 0,
                        consistency = get_or latency_analysis ''consistency_score'' 0,
                        processing_rate = per_second \<rparr>)))))))"

section \<open>Comparing runs, and concrete responders\<close>

text \<open>A formatted result without its latency hole: what two runs against the same
  responder can be expected to share.\<close>

definition strip_latency :: "piece list \<Rightarrow> piece list" where
  "strip_latency f = filter (\<lambda>p. case p of Float2Hole t \<Rightarrow> False | _ \<Rightarrow> True) f"

text \<open>Two responders (in possibly different worlds) are the same deterministic
  responder when what they return or raise is one function of the prompts.\<close>

definition deterministic :: "'w responder \<Rightarrow> 'v responder \<Rightarrow> bool" where
  "deterministic worker worker' =
     (\<exists>answer. (\<forall>q sp w. fst (worker q sp w) = answer q sp)
             \<and> (\<forall>q sp w. fst (worker' q sp w) = answer q sp))"

text \<open>Two demonstrators have the same responder when both run in demo mode or
  their workers are the same deterministic responder. Two loop states have the same
  outcome when they agree on everything but latencies and worlds: the formatted
  results without the latency hole, the success and failure tallies, the token
  estimate, and number, question and answer length of every stored result.\<close>

definition same_responder :: "'w demonstrator \<Rightarrow> 'v demonstrator \<Rightarrow> bool" where
  "same_responder self self' =
     (case (cloudflare_worker self, cloudflare_worker self') of
        (None, None) \<Rightarrow> True
      | (Some worker, Some worker') \<Rightarrow> deterministic worker worker'
      | _ \<Rightarrow> False)"

definition same_outcome ::
  "piece list list \<times> 'w demonstrator \<times> 'w \<Rightarrow> piece list list \<times> 'v demonstrator \<times> 'v \<Rightarrow> bool" where
  "same_outcome s s' =
     (map strip_latency (fst s) = map strip_latency (fst s')
      \<and> successful_queries (fst (snd s)) = successful_queries (fst (snd s'))
      \<and> connectivity_issues (fst (snd s)) = connectivity_issues (fst (snd s'))
      \<and> total_tokens_estimated (fst (snd s)) = total_tokens_estimated (fst (snd s'))
      \<and> map (\<lambda>r. (res_question_number r, res_question r, res_answer_length r))
            (results (fst (snd s)))
          = map (\<lambda>r. (res_question_number r, res_question r, res_answer_length r))
              (results (fst (snd s'))))"

text \<open>A runtime whose world is the time in seconds: the clock reads it, sleeping
  advances it. The responders take an eighth of a second to answer and a quarter of a
  second to fail.\<close>

definition clock_runtime :: "real runtime" where
  "clock_runtime = \<lparr> perf_counter = (\<lambda>w. (w, w)), sleep = (\<lambda>d w. w + d) \<rparr>"

definition echo_responder :: "real responder" where
  "echo_responder q sp w = (Inr (VStr (''ok:'' @ q)), w + 1/8)"

definition failing_responder :: "real responder" where
  "failing_responder q sp w = (Inl (ConnectionError ''boom''), w + 1/4)"

definition flaky_responder :: "real responder" where
  "flaky_responder q sp w =
     (if q = ''y'' then (Inl (RuntimeError ''boom''), w + 1/4)
      else (Inr (VStr (''ok:'' @ q)), w + 1/8))"

definition failing_demo :: "real demonstrator" where
  "failing_demo = (init 0)\<lparr>cloudflare_worker := Some failing_responder\<rparr>"

definition flaky_demo :: "real \<Rightarrow> real demonstrator" where
  "flaky_demo now = (init now)\<lparr>cloudflare_worker := Some flaky_responder\<rparr>"

definition echo_demo :: "real demonstrator" where
  "echo_demo = (init 0)\<lparr>cloudflare_worker := Some echo_responder\<rparr>"

text \<open>The loop state after two prompts have gone to the failing responder, with half
  a second of delay between them.\<close>

definition failing_run :: "piece list list \<times> real demonstrator \<times> real" where
  "failing_run = process_batch clock_runtime (1/2) 2 1 [''a'', ''b''] ([], failing_demo, 0)"

section \<open>CloudflareWorker never raises\<close>

lemma send_request_result:
  "send_request post np_array self model_name input debug_log w =
     (let r = post (api_base_url self @ model_name)
                [(''Authorization'', ''Bearer '' @ cloudflare_api_key self)] input w
      in (Inr (case send_request_try np_array (fst r) of Inl e \<Rightarrow> VNone | Inr v \<Rightarrow> v), snd r))"
  by (simp add: send_request_def Let_def split: prod.splits sum.splits)

text \<open>
  C8. Whatever the model name, the input, the network outcome and the behaviour of
  \<open>np.array\<close>, \<open>_send_request\<close> returns a value, and so does \<open>query\<close> for every
  prompt string: an exception raised inside the \<open>try\<close> block is caught and \<open>None\<close>
  is returned.
\<close>

theorem send_request_never_raises:
  "(\<exists>v. fst (send_request post np_array self model_name input debug_log w) = Inr v)
   \<and> (\<exists>v. fst (query post np_array self prompt sp w) = Inr v)"
  by (simp add: query_def send_request_result Let_def)

section \<open>The batch loop\<close>

lemma process_batch_append:
  "process_batch rt delay tot i (xs @ ys) s =
     process_batch rt delay tot (i + int (length xs)) ys (process_batch rt delay tot i xs s)"
proof (induction xs arbitrary: i s)
  case Nil
  then show ?case by simp
next
  case (Cons x xs)
  obtain f self w where s: "s = (f, self, w)" by (cases s) auto
  show ?case
    by (simp add: s Let_def Cons.IH split: prod.splits add: algebra_simps)
qed

text \<open>Chunking is invisible: the outer loop started at \<open>batch_start\<close> does what the
  inner loop does on the rest of the list.\<close>

lemma batch_loop_eq:
  "0 < batch_size \<Longrightarrow>
   batch_loop rt questions delay batch_size batch_start s =
     process_batch rt delay (int (length questions)) (int batch_start + 1)
       (drop batch_start questions) s"
proof (induction rt questions delay batch_size batch_start s rule: batch_loop.induct)
  case (1 rt questions delay batch_size batch_start s)
  show ?case
  proof (cases "batch_start < length questions")
    case False
    then show ?thesis by simp
  next
    case True
    let ?k = "min (batch_start + batch_size) (length questions) - batch_start"
    let ?n = "int (length questions)"
    let ?chunk = "take ?k (drop batch_start questions)"
    have len: "length ?chunk = ?k"
      using True by (auto simp: min_def)
    have "batch_loop rt questions delay batch_size batch_start s =
          batch_loop rt questions delay batch_size (batch_start + batch_size)
            (process_batch rt delay ?n (int batch_start + 1) ?chunk s)"
      using True "1.prems" by (subst batch_loop.simps) (simp add: Let_def)
    also have "\<dots> = process_batch rt delay ?n (int (batch_start + batch_size) + 1)
                         (drop (batch_start + batch_size) questions)
                         (process_batch rt delay ?n (int batch_start + 1) ?chunk s)"
      using True "1.prems" by (intro "1.IH") auto
    also have "\<dots> = process_batch rt delay ?n (int batch_start + 1)
                         (drop batch_start questions) s"
    proof (cases "batch_start + batch_size \<le> length questions")
      case True
      then have k: "?k = batch_size" by simp
      have "drop batch_start questions = ?chunk @ drop ?k (drop batch_start questions)"
        by (rule append_take_drop_id[symmetric])
      also have "drop ?k (drop batch_start questions) = drop (batch_start + batch_size) questions"
        using True by (simp add: min_def ac_simps)
      finally have "process_batch rt delay ?n (int batch_start + 1) (drop batch_start questions) s
            = process_batch rt delay ?n (int batch_start + 1 + int ?k)
                (drop (batch_start + batch_size) questions)
                (process_batch rt delay ?n (int batch_start + 1) ?chunk s)"
        using process_batch_append[of rt delay ?n "int batch_start + 1" ?chunk
                "drop (batch_start + batch_size) questions" s] len
        by simp
      moreover have "int batch_start + 1 + int ?k = int (batch_start + batch_size) + 1"
        using k by simp
      ultimately show ?thesis by (simp only:)
    next
      case False
      then have "drop (batch_start + batch_size) questions = []"
        and "?chunk = drop batch_start questions"
        by (simp_all add: min_def)
      then show ?thesis by simp
    qed
    finally show ?thesis .
  qed
qed

lemma run_queries_batch_eq:
  "0 < batch_size \<Longrightarrow>
   run_queries_batch rt questions delay batch_size self w =
     Inr (process_batch rt delay (int (length questions)) 1 questions ([], self, w))"
  using batch_loop_eq[of "nat batch_size" rt questions delay 0 "([], self, w)"]
  by (simp add: run_queries_batch_def)

lemma process_batch_Cons:
  "process_batch rt delay tot i (q # rest) (f, self, w) =
     (let r = query_krishna_topic rt q i self w
      in process_batch rt delay tot (i + 1) rest
           (f @ [format_result i q (snd (fst r)) (fst (fst r))],
            (fst (snd r))\<lparr>results := results (fst (snd r)) @
               [\<lparr> res_question_number = i, res_question = q,
                  res_response_time = snd (fst r),
                  res_answer_length = int (length (fst (fst r))) \<rparr>]\<rparr>,
            if 0 < delay \<and> i < tot then sleep rt delay (snd (snd r)) else snd (snd r)))"
  by (simp add: Let_def split: prod.splits)

lemma query_krishna_topic_results:
  "results (fst (snd (query_krishna_topic rt q i self w))) = results self"
  by (simp add: query_krishna_topic_def Let_def
           split: prod.splits option.splits sum.splits pyval.splits)

lemma query_krishna_topic_worker:
  "cloudflare_worker (fst (snd (query_krishna_topic rt q i self w))) = cloudflare_worker self"
  by (simp add: query_krishna_topic_def Let_def
           split: prod.splits option.splits sum.splits pyval.splits)

lemma process_batch_formatted:
  "process_batch rt delay tot i qs (f, self, w) = (f', self', w') \<Longrightarrow>
   length f' = length f + length qs \<and> take (length f) f' = f
   \<and> map (\<lambda>p. (p ! 1, p ! 3)) (drop (length f) f')
       = map (\<lambda>k. (IntHole (i + int k), StrHole (qs ! k))) [0..<length qs]"
proof (induction qs arbitrary: i f self w)
  case Nil
  then show ?case by simp
next
  case (Cons q rest)
  let ?r = "query_krishna_topic rt q i self w"
  let ?f1 = "f @ [format_result i q (snd (fst ?r)) (fst (fst ?r))]"
  from Cons.prems obtain self1 w1 where
    step: "process_batch rt delay tot (i + 1) rest (?f1, self1, w1) = (f', self', w')"
    by (simp only: process_batch_Cons Let_def)
  note ih = Cons.IH[OF step]
  have len: "length f' = length f + length (q # rest)" using ih by simp
  have tk: "take (length f) f' = f"
  proof -
    have "take (length f) f' = take (length f) (take (length ?f1) f')"
      by (simp add: min_def)
    also have "\<dots> = take (length f) ?f1" using ih by simp
    finally show ?thesis by simp
  qed
  have d1: "drop (length f) f' = (f' ! length f) # drop (length ?f1) f'"
    using len by (simp add: Cons_nth_drop_Suc)
  have "f' ! length f = take (length ?f1) f' ! length f" by simp
  also have "\<dots> = format_result i q (snd (fst ?r)) (fst (fst ?r))" using ih by simp
  finally have hd: "f' ! length f = format_result i q (snd (fst ?r)) (fst (fst ?r))" .
  have "map (\<lambda>p. (p ! 1, p ! 3)) (drop (length f) f')
        = (IntHole i, StrHole q)
          # map (\<lambda>k. (IntHole (i + 1 + int k), StrHole (rest ! k))) [0..<length rest]"
    using ih by (simp add: d1 hd format_result_def)
  also have "\<dots> = map (\<lambda>k. (IntHole (i + int k), StrHole ((q # rest) ! k))) [0..<length (q # rest)]"
    by (simp add: upt_conv_Cons map_Suc_upt[symmetric] del: upt_Suc)
  finally show ?case using len tk by simp
qed

lemma process_batch_results:
  "process_batch rt delay tot i qs (f, self, w) = (f', self', w') \<Longrightarrow>
   map res_question_number (results self')
     = map res_question_number (results self) @ map (\<lambda>k. i + int k) [0..<length qs]
   \<and> map res_question (results self') = map res_question (results self) @ qs"
proof (induction qs arbitrary: i f self w)
  case Nil
  then show ?case by simp
next
  case (Cons q rest)
  let ?r = "query_krishna_topic rt q i self w"
  from Cons.prems obtain f1 self1 w1 where
    step: "process_batch rt delay tot (i + 1) rest (f1, self1, w1) = (f', self', w')"
    and res: "results self1 = results self @
               [\<lparr> res_question_number = i, res_question = q,
                  res_response_time = snd (fst ?r),
                  res_answer_length = int (length (fst (fst ?r))) \<rparr>]"
    by (simp only: process_batch_Cons Let_def) (simp add: query_krishna_topic_results)
  note ih = Cons.IH[OF step]
  have "map (\<lambda>k. i + int k) [0..<length (q # rest)]
        = i # map (\<lambda>k. i + 1 + int k) [0..<length rest]"
    by (simp add: upt_conv_Cons map_Suc_upt[symmetric] del: upt_Suc)
  then show ?case using ih res by simp
qed

lemma upto_as_map: "map (\<lambda>k. int k + 1) [0..<n] = [1..int n]"
proof (induction n)
  case 0
  then show ?case by simp
next
  case (Suc n)
  have "[1..int (Suc n)] = [1..int n] @ [int n + 1]"
    by (simp add: upto_rec2 add.commute)
  then show ?case using Suc by simp
qed

text \<open>
  C3. For every list of prompts, every responder (one that raises, returns a string or
  returns something else) and every batch size of at least 1, \<open>run_queries_batch\<close>
  returns normally and the returned list has one entry per prompt.
\<close>

theorem run_queries_batch_length:
  assumes "0 < batch_size"
  shows "\<exists>formatted self' w'.
           run_queries_batch rt questions delay batch_size self w = Inr (formatted, self', w')
           \<and> length formatted = length questions"
proof -
  obtain f' self' w' where
    pb: "process_batch rt delay (int (length questions)) 1 questions ([], self, w) = (f', self', w')"
    by (metis prod_cases3)
  from process_batch_formatted[OF pb] have "length f' = length questions" by simp
  then show ?thesis
    using run_queries_batch_eq[OF assms, of rt questions delay self w] pb by simp
qed

theorem run_queries_batch_length_witness:
  "0 < (2::int) \<and>
   (\<exists>formatted self' w'.
      run_queries_batch clock_runtime [''x'', ''y'', ''z''] (1/2) 2
        (flaky_demo 0) 0 = Inr (formatted, self', w')
      \<and> length formatted = length [''x'', ''y'', ''z''])"
  using run_queries_batch_length[of 2 clock_runtime "[''x'', ''y'', ''z'']" "1/2"
          "flaky_demo 0" 0]
  by simp

text \<open>
  C4. For a batch size of at least 1 the run returns normally; the number holes of the
  returned results are 1 .. n in this order and their question holes are the prompts
  in submission order. The entries appended to \<open>self.results\<close> carry the same
  numbers and questions. Nothing is assumed about which prompts succeed.
\<close>

theorem run_queries_batch_indices:
  assumes "0 < batch_size"
  shows "case run_queries_batch rt questions delay batch_size self w of
           Inl e \<Rightarrow> False
         | Inr (formatted, self', w') \<Rightarrow>
             map (\<lambda>p. p ! 1) formatted = map IntHole [1..int (length questions)]
           \<and> map (\<lambda>p. p ! 3) formatted = map StrHole questions
           \<and> map res_question_number (drop (length (results self)) (results self'))
               = [1..int (length questions)]
           \<and> map res_question (drop (length (results self)) (results self')) = questions"
proof -
  obtain formatted self' w' where
    pb: "process_batch rt delay (int (length questions)) 1 questions ([], self, w) = (formatted, self', w')"
    by (metis prod_cases3)
  from process_batch_formatted[OF pb]
  have m: "map (\<lambda>p. (p ! 1, p ! 3)) formatted
             = map (\<lambda>k. (IntHole (1 + int k), StrHole (questions ! k))) [0..<length questions]"
    by simp
  have "map (\<lambda>p. p ! 1) formatted = map fst (map (\<lambda>p. (p ! 1, p ! 3)) formatted)"
    by simp
  also have "\<dots> = map IntHole (map (\<lambda>k. int k + 1) [0..<length questions])"
    by (simp only: m) (simp add: add.commute)
  finally have a: "map (\<lambda>p. p ! 1) formatted = map IntHole [1..int (length questions)]"
    by (simp only: upto_as_map)
  have "map (\<lambda>p. p ! 3) formatted = map snd (map (\<lambda>p. (p ! 1, p ! 3)) formatted)"
    by simp
  also have "\<dots> = map StrHole (map (\<lambda>k. questions ! k) [0..<length questions])"
    by (simp only: m) simp
  finally have b: "map (\<lambda>p. p ! 3) formatted = map StrHole questions"
    by (simp add: map_nth)
  from process_batch_results[OF pb]
  have r1: "map res_question_number (results self')
              = map res_question_number (results self) @ map (\<lambda>k. int k + 1) [0..<length questions]"
    and r2: "map res_question (results self') = map res_question (results self) @ questions"
    by (simp_all add: add.commute)
  have c: "map res_question_number (drop (length (results self)) (results self'))
             = [1..int (length questions)]"
    using r1 by (simp add: drop_map[symmetric] upto_as_map)
  have d: "map res_question (drop (length (results self)) (results self')) = questions"
    using r2 by (simp add: drop_map[symmetric])
  show ?thesis
    using a b c d run_queries_batch_eq[OF assms, of rt questions delay self w] pb by simp
qed

theorem run_queries_batch_indices_witness:
  "0 < (2::int) \<and>
   (case run_queries_batch clock_runtime [''x'', ''y'', ''z''] (1/2) 2
           (flaky_demo 0) 0 of
      Inl e \<Rightarrow> False
    | Inr (formatted, self', w') \<Rightarrow>
        map (\<lambda>p. p ! 1) formatted = [IntHole 1, IntHole 2, IntHole 3]
      \<and> map (\<lambda>p. p ! 3) formatted = [StrHole ''x'', StrHole ''y'', StrHole ''z'']
      \<and> map res_question_number (results self') = [1, 2, 3]
      \<and> map res_question (results self') = [''x'', ''y'', ''z''])"
  using run_queries_batch_indices[where batch_size = 2 and rt = clock_runtime
          and questions = "[''x'', ''y'', ''z'']" and delay = "1/2"
          and self = "flaky_demo 0" and w = 0]
  by (simp add: flaky_demo_def init_def upto_rec1 split: sum.splits prod.splits)

section \<open>What one query does\<close>

lemma query_krishna_topic_Some:
  fixes rt :: "'w runtime" and self :: "'w demonstrator" and w :: 'w
    and worker :: "'w responder" and question :: string and question_number :: int
  assumes "cloudflare_worker self = Some worker"
  defines "out \<equiv> fst (worker question system_prompt (snd (perf_counter rt w)))"
  defines "r \<equiv> query_krishna_topic rt question question_number self w"
  shows "fst (fst r) =
           (case out of
              Inl e \<Rightarrow> ''Connection Error: '' @ str_exn e
            | Inr (VStr text) \<Rightarrow> text
            | Inr v \<Rightarrow> ''Error: '' @ str_exn (no_attribute v ''split''))"
    and "successful_queries (fst (snd r)) =
           successful_queries self + (case out of Inl e \<Rightarrow> 0 | Inr v \<Rightarrow> 1)"
    and "connectivity_issues (fst (snd r)) =
           connectivity_issues self
             + (case out of Inl e \<Rightarrow> 1 | Inr (VStr text) \<Rightarrow> 0 | Inr v \<Rightarrow> 1)"
    and "total_tokens_estimated (fst (snd r)) =
           total_tokens_estimated self
             + (case out of Inr (VStr text) \<Rightarrow>
                    int (length (split_ws [] question)) + int (length (split_ws [] text))
                 | Inl e \<Rightarrow> int (length (split_ws [] question))
                      + int (length (split_ws [] (''Connection Error: '' @ str_exn e)))
                 | _ \<Rightarrow> 0)"
  using assms(1) unfolding r_def out_def
  by (auto simp: query_krishna_topic_def Let_def
           split: prod.splits option.splits sum.splits pyval.splits)

lemma query_krishna_topic_None:
  fixes rt :: "'w runtime" and self :: "'w demonstrator" and w :: 'w
    and question :: string and question_number :: int
  assumes "cloudflare_worker self = None"
  defines "r \<equiv> query_krishna_topic rt question question_number self w"
  shows "fst (fst r) = mock_response"
    and "successful_queries (fst (snd r)) = successful_queries self"
    and "connectivity_issues (fst (snd r)) = connectivity_issues self"
    and "total_tokens_estimated (fst (snd r)) =
           total_tokens_estimated self
             + (int (length (split_ws [] question)) + int (length (split_ws [] mock_response)))"
  using assms(1) unfolding r_def
  by (auto simp: query_krishna_topic_def Let_def
           split: prod.splits option.splits sum.splits pyval.splits)


lemma query_krishna_topic_same:
  fixes rt :: "'w runtime" and self :: "'w demonstrator" and w :: 'w
    and rt' :: "'v runtime" and self' :: "'v demonstrator" and w' :: 'v
    and q :: string and i :: int
  assumes sr: "same_responder self self'"
  defines "r \<equiv> query_krishna_topic rt q i self w"
  defines "r' \<equiv> query_krishna_topic rt' q i self' w'"
  shows "fst (fst r) = fst (fst r')"
    and "successful_queries (fst (snd r)) - successful_queries self
         = successful_queries (fst (snd r')) - successful_queries self'"
    and "connectivity_issues (fst (snd r)) - connectivity_issues self
         = connectivity_issues (fst (snd r')) - connectivity_issues self'"
    and "total_tokens_estimated (fst (snd r)) - total_tokens_estimated self
         = total_tokens_estimated (fst (snd r')) - total_tokens_estimated self'"
proof -
  consider (mock) "cloudflare_worker self = None" "cloudflare_worker self' = None"
    | (real) worker worker' where "cloudflare_worker self = Some worker"
        "cloudflare_worker self' = Some worker'" "deterministic worker worker'"
    using sr by (auto simp: same_responder_def split: option.splits)
  then have "fst (fst r) = fst (fst r')
      \<and> successful_queries (fst (snd r)) - successful_queries self
         = successful_queries (fst (snd r')) - successful_queries self'
      \<and> connectivity_issues (fst (snd r)) - connectivity_issues self
         = connectivity_issues (fst (snd r')) - connectivity_issues self'
      \<and> total_tokens_estimated (fst (snd r)) - total_tokens_estimated self
         = total_tokens_estimated (fst (snd r')) - total_tokens_estimated self'"
  proof cases
    case mock
    then show ?thesis
      unfolding r_def r'_def by (simp add: query_krishna_topic_None)
  next
    case real
    from real(3) have
      "fst (worker q system_prompt (snd (perf_counter rt w)))
       = fst (worker' q system_prompt (snd (perf_counter rt' w')))"
      by (auto simp: deterministic_def)
    then show ?thesis
      unfolding r_def r'_def
      by (simp add: query_krishna_topic_Some[OF real(1)] query_krishna_topic_Some[OF real(2)])
  qed
  then show "fst (fst r) = fst (fst r')"
    and "successful_queries (fst (snd r)) - successful_queries self
         = successful_queries (fst (snd r')) - successful_queries self'"
    and "connectivity_issues (fst (snd r)) - connectivity_issues self
         = connectivity_issues (fst (snd r')) - connectivity_issues self'"
    and "total_tokens_estimated (fst (snd r)) - total_tokens_estimated self
         = total_tokens_estimated (fst (snd r')) - total_tokens_estimated self'"
    by simp_all
qed

lemma same_responder_step:
  "same_responder self self' \<Longrightarrow>
   same_responder
     ((fst (snd (query_krishna_topic rt q i self w)))\<lparr>results := rs\<rparr>)
     ((fst (snd (query_krishna_topic rt' q' i' self' w')))\<lparr>results := rs'\<rparr>)"
  by (simp add: same_responder_def query_krishna_topic_worker)

lemma strip_latency_format_result:
  "strip_latency (format_result i q t a) = strip_latency (format_result i q t' a)"
  by (simp add: strip_latency_def format_result_def)

lemma process_batch_same:
  fixes rt :: "'w runtime" and s :: "piece list list \<times> 'w demonstrator \<times> 'w"
    and rt' :: "'v runtime" and s' :: "piece list list \<times> 'v demonstrator \<times> 'v"
  shows "same_responder (fst (snd s)) (fst (snd s')) \<Longrightarrow> same_outcome s s' \<Longrightarrow>
         same_outcome (process_batch rt delay tot i qs s) (process_batch rt' delay' tot' i qs s')"
proof (induction qs arbitrary: i s s')
  case Nil
  then show ?case by simp
next
  case (Cons q rest)
  obtain f self w where s: "s = (f, self, w)" by (cases s) auto
  obtain f' self' w' where s': "s' = (f', self', w')" by (cases s') auto
  let ?r = "query_krishna_topic rt q i self w"
  let ?r' = "query_krishna_topic rt' q i self' w'"
  have sr: "same_responder self self'" using Cons.prems(1) by (simp add: s s')
  note q = query_krishna_topic_same[OF sr, of rt q i w rt' w']
  have so: "same_outcome (f, self, w) (f', self', w')" using Cons.prems(2) by (simp add: s s')
  show ?case
    unfolding s s' process_batch_Cons Let_def
  proof (rule Cons.IH)
    show "same_responder (fst (snd (f @ [format_result i q (snd (fst ?r)) (fst (fst ?r))],
              (fst (snd ?r))\<lparr>results := results (fst (snd ?r)) @
                 [\<lparr> res_question_number = i, res_question = q,
                    res_response_time = snd (fst ?r),
                    res_answer_length = int (length (fst (fst ?r))) \<rparr>]\<rparr>,
              if 0 < delay \<and> i < tot then sleep rt delay (snd (snd ?r)) else snd (snd ?r))))
            (fst (snd (f' @ [format_result i q (snd (fst ?r')) (fst (fst ?r'))],
              (fst (snd ?r'))\<lparr>results := results (fst (snd ?r')) @
                 [\<lparr> res_question_number = i, res_question = q,
                    res_response_time = snd (fst ?r'),
                    res_answer_length = int (length (fst (fst ?r'))) \<rparr>]\<rparr>,
              if 0 < delay' \<and> i < tot' then sleep rt' delay' (snd (snd ?r')) else snd (snd ?r'))))"
      using same_responder_step[OF sr] by simp
  next
    show "same_outcome (f @ [format_result i q (snd (fst ?r)) (fst (fst ?r))],
              (fst (snd ?r))\<lparr>results := results (fst (snd ?r)) @
                 [\<lparr> res_question_number = i, res_question = q,
                    res_response_time = snd (fst ?r),
                    res_answer_length = int (length (fst (fst ?r))) \<rparr>]\<rparr>,
              if 0 < delay \<and> i < tot then sleep rt delay (snd (snd ?r)) else snd (snd ?r))
            (f' @ [format_result i q (snd (fst ?r')) (fst (fst ?r'))],
              (fst (snd ?r'))\<lparr>results := results (fst (snd ?r')) @
                 [\<lparr> res_question_number = i, res_question = q,
                    res_response_time = snd (fst ?r'),
                    res_answer_length = int (length (fst (fst ?r'))) \<rparr>]\<rparr>,
              if 0 < delay' \<and> i < tot' then sleep rt' delay' (snd (snd ?r')) else snd (snd ?r'))"
      using so q strip_latency_format_result[of i q "snd (fst ?r)" "fst (fst ?r')" "snd (fst ?r')"]
      by (simp add: same_outcome_def query_krishna_topic_results)
  qed
qed


section \<open>The batch size and the results\<close>

text \<open>
  C5 as stated fails on the empty prompt list: there the batch size \<open>len(prompts)\<close>
  is 0 and \<open>range\<close> raises ValueError, while batch size 1 returns the empty list.
\<close>

theorem batch_size_empty_counterexample:
  "run_queries_batch clock_runtime [] (1/2) 1 (init 0) 0 = Inr ([], init 0, 0)
   \<and> run_queries_batch clock_runtime [] (1/2) (int (length ([] :: string list))) (init 0) 0
       = Inl (ValueError ''range() arg 3 must not be zero'')"
  by (simp add: run_queries_batch_def)

text \<open>
  C5, amended. For every non-empty prompt list, batch size 1 and batch size
  \<open>len(prompts)\<close> give the very same outcome when started in the same world, for
  every responder. For two runs of a deterministic responder that differ in their
  clocks, delays and worlds, both return, and the results agree in count, order,
  numbers, questions, answer texts and in the success and failure tallies; only the
  latencies may differ.
\<close>

theorem batch_size_one_or_all:
  fixes rt :: "'w runtime" and rt' :: "'v runtime"
  assumes "questions \<noteq> []" and "same_responder self self'"
    and "same_outcome ([], self, w) ([], self', w')"
  shows "run_queries_batch rt questions delay 1 self w
           = run_queries_batch rt questions delay (int (length questions)) self w
       \<and> (case (run_queries_batch rt questions delay 1 self w,
                 run_queries_batch rt' questions delay' (int (length questions)) self' w') of
             (Inr s1, Inr s2) \<Rightarrow> length (fst s1) = length (fst s2) \<and> same_outcome s1 s2
           | _ \<Rightarrow> False)"
proof -
  have n: "0 < int (length questions)" using assms(1) by simp
  let ?p1 = "process_batch rt delay (int (length questions)) 1 questions ([], self, w)"
  let ?p2 = "process_batch rt' delay' (int (length questions)) 1 questions ([], self', w')"
  have so: "same_outcome ?p1 ?p2"
    using assms(2,3) by (intro process_batch_same) simp_all
  have "length (fst ?p1) = length questions" "length (fst ?p2) = length questions"
    using process_batch_formatted[of rt delay "int (length questions)" 1 questions "[]" self w
            "fst ?p1" "fst (snd ?p1)" "snd (snd ?p1)"]
          process_batch_formatted[of rt' delay' "int (length questions)" 1 questions "[]" self' w'
            "fst ?p2" "fst (snd ?p2)" "snd (snd ?p2)"]
    by simp_all
  then show ?thesis
    using so by (simp add: run_queries_batch_eq[OF n] run_queries_batch_eq[of 1])
qed

lemma deterministic_flaky: "deterministic flaky_responder flaky_responder"
  unfolding deterministic_def
  by (rule exI[of _ "\<lambda>q sp. if q = ''y'' then Inl (RuntimeError ''boom'') else Inr (VStr (''ok:'' @ q))"])
     (simp add: flaky_responder_def)

theorem batch_size_one_or_all_witness:
  "[''x'', ''y''] \<noteq> []
   \<and> same_responder (flaky_demo 0)
                     (flaky_demo 5)
   \<and> same_outcome ([], flaky_demo 0, 0::real)
                   ([], flaky_demo 5, 7::real)
   \<and> run_queries_batch clock_runtime [''x'', ''y''] (1/2) 1
         (flaky_demo 0) 0
       = run_queries_batch clock_runtime [''x'', ''y''] (1/2) (int (length [''x'', ''y'']))
           (flaky_demo 0) 0
   \<and> (case (run_queries_batch clock_runtime [''x'', ''y''] (1/2) 1
                (flaky_demo 0) 0,
             run_queries_batch clock_runtime [''x'', ''y''] 0 (int (length [''x'', ''y'']))
                (flaky_demo 5) 7) of
         (Inr s1, Inr s2) \<Rightarrow> length (fst s1) = length (fst s2) \<and> same_outcome s1 s2
       | _ \<Rightarrow> False)"
proof -
  have a: "[''x'', ''y''] \<noteq> []" by simp
  have b: "same_responder (flaky_demo 0)
                          (flaky_demo 5)"
    by (simp add: same_responder_def flaky_demo_def deterministic_flaky)
  have c: "same_outcome ([], flaky_demo 0, 0::real)
                        ([], flaky_demo 5, 7::real)"
    by (simp add: same_outcome_def flaky_demo_def init_def)
  show ?thesis
    using a b c batch_size_one_or_all[OF a b c, where rt = clock_runtime and delay = "1/2"
                  and rt' = clock_runtime and delay' = 0]
    by blast
qed


section \<open>Properties of the rounding\<close>

lemma rne_of_int: "rne (of_int k) = k"
  by (simp add: rne_def)

lemma rne_floor_le: "\<lfloor>x\<rfloor> \<le> rne x" and rne_le_floor: "rne x \<le> \<lfloor>x\<rfloor> + 1"
  unfolding rne_def Let_def by auto

lemma rne_cases:
  "(rne x = \<lfloor>x\<rfloor> \<and> x - of_int \<lfloor>x\<rfloor> \<le> 1/2)
   \<or> (rne x = \<lfloor>x\<rfloor> + 1 \<and> 1/2 \<le> x - of_int \<lfloor>x\<rfloor>)"
  unfolding rne_def Let_def by auto

lemma rne_upper: "real_of_int (rne x) \<le> x + 1/2"
proof -
  have "real_of_int \<lfloor>x\<rfloor> \<le> x" by simp
  then show ?thesis using rne_cases[of x] by (elim disjE conjE; linarith)
qed

lemma rne_lower: "x - 1/2 \<le> real_of_int (rne x)"
proof -
  have "x < real_of_int \<lfloor>x\<rfloor> + 1" by linarith
  then show ?thesis using rne_cases[of x] by (elim disjE conjE; linarith)
qed

lemma rne_mono: "x \<le> y \<Longrightarrow> rne x \<le> rne y"
proof (cases "\<lfloor>x\<rfloor> = \<lfloor>y\<rfloor>")
  case True
  assume "x \<le> y"
  then have "x - of_int \<lfloor>x\<rfloor> \<le> y - of_int \<lfloor>y\<rfloor>" using True by simp
  then show ?thesis unfolding rne_def Let_def using True by auto
next
  case False
  assume "x \<le> y"
  then have "\<lfloor>x\<rfloor> < \<lfloor>y\<rfloor>" using False floor_mono[of x y] by linarith
  then have "rne x \<le> \<lfloor>y\<rfloor>" using rne_le_floor[of x] by linarith
  then show ?thesis using rne_floor_le[of y] by linarith
qed

lemma rne_le_int: "x \<le> of_int k \<Longrightarrow> rne x \<le> k"
  using rne_mono[of x "of_int k"] by (simp add: rne_of_int)

lemma rne_ge_int: "of_int k \<le> x \<Longrightarrow> k \<le> rne x"
  using rne_mono[of "of_int k" x] by (simp add: rne_of_int)


lemma floorlog2_bounds:
  assumes "0 < n"
  shows "(2::real) ^ (floorlog 2 n - 1) \<le> real n" and "real n + 1 \<le> 2 ^ floorlog 2 n"
    and "1 \<le> floorlog 2 n"
proof -
  from floorlog_bounds[of n 2] assms
  have b: "2 ^ (floorlog 2 n - 1) \<le> n" "n < 2 ^ floorlog 2 n" by simp_all
  have "real (2 ^ (floorlog 2 n - 1)) \<le> real n" using b(1) by (rule iffD2[OF of_nat_le_iff])
  then show "(2::real) ^ (floorlog 2 n - 1) \<le> real n" by simp
  have "Suc n \<le> 2 ^ floorlog 2 n" using b(2) by simp
  then have "real (Suc n) \<le> real (2 ^ floorlog 2 n)" by (rule iffD2[OF of_nat_le_iff])
  then show "real n + 1 \<le> 2 ^ floorlog 2 n" by simp
  show "1 \<le> floorlog 2 n"
    using assms by (simp add: floorlog_def)
qed

lemma ilog2_bounds:
  assumes "0 < x"
  shows "2 powi (ilog2 x) \<le> x" and "x < 2 powi (ilog2 x + 1)"
proof -
  have "2 powi (ilog2 x) \<le> x \<and> x < 2 powi (ilog2 x + 1)"
  proof (cases "1 \<le> x")
    case True
    define n where "n = nat \<lfloor>x\<rfloor>"
    have fx: "1 \<le> \<lfloor>x\<rfloor>" using True by linarith
    have n0: "0 < n" using fx by (simp add: n_def)
    have rn: "real n = real_of_int \<lfloor>x\<rfloor>" using fx by (simp add: n_def)
    have n1: "real n \<le> x" and n2: "x < real n + 1" unfolding rn by linarith+
    define c where "c = floorlog 2 n"
    note b = floorlog2_bounds[OF n0, folded c_def]
    have il: "ilog2 x = int c - 1" using True by (simp add: ilog2_def c_def n_def)
    have e1: "int c - 1 = int (c - 1)" using b(3) by simp
    have e2: "int c - 1 + 1 = int c" by simp
    have "(2::real) powi (int c - 1) \<le> x"
      unfolding e1 power_int_of_nat using b(1) n1 by linarith
    moreover have "x < (2::real) powi (int c - 1 + 1)"
      unfolding e2 power_int_of_nat using b(2) n2 by linarith
    ultimately show ?thesis unfolding il by simp
  next
    case False
    define y where "y = 1 / x"
    have y1: "1 < y" using False assms by (simp add: y_def)
    define k where "k = nat (\<lceil>y\<rceil> - 1)"
    have cy: "2 \<le> \<lceil>y\<rceil>" using y1 by linarith
    have k0: "0 < k" using cy by (simp add: k_def)
    have rk: "real k = real_of_int \<lceil>y\<rceil> - 1" using cy by (simp add: k_def)
    have k1: "real k < y" and k2: "y \<le> real k + 1" unfolding rk by linarith+
    define c where "c = floorlog 2 k"
    note b = floorlog2_bounds[OF k0, folded c_def]
    have il: "ilog2 x = - int c" using False by (simp add: ilog2_def c_def k_def y_def)
    have lo: "(2::real) ^ (c - 1) < y" using b(1) k1 by linarith
    have hi: "y \<le> 2 ^ c" using b(2) k2 by linarith
    have p1: "(2::real) powi (- int c) = 1 / 2 ^ c"
      by (simp add: power_int_minus_divide)
    have "- int c + 1 = - int (c - 1)" using b(3) by simp
    then have p2: "(2::real) powi (- int c + 1) = 1 / 2 ^ (c - 1)"
      by (simp only: power_int_minus_divide power_int_of_nat)
    have xy: "x = 1 / y" by (simp add: y_def)
    have ypos: "0 < y" using y1 by simp
    have "1 / 2 ^ c \<le> 1 / y"
      using hi ypos by (intro divide_left_mono) simp_all
    then have a: "1 / 2 ^ c \<le> x" by (simp only: xy)
    have "1 / y < 1 / 2 ^ (c - 1)"
      using lo ypos by (intro divide_strict_left_mono) simp_all
    then have b': "x < 1 / 2 ^ (c - 1)" by (simp only: xy)
    show ?thesis unfolding il p1 p2 using a b' by simp
  qed
  then show "2 powi (ilog2 x) \<le> x" and "x < 2 powi (ilog2 x + 1)" by simp_all
qed


lemma fl_zero: "fl 0 = 0"
  by (simp add: fl_def)


lemma fl_pos_eq:
  "0 < x \<Longrightarrow> fl x = of_int (rne (x / 2 powi (ilog2 x - 52))) * 2 powi (ilog2 x - 52)"
  by (simp add: fl_def Let_def)

lemma powi_shift: "(2::real) powi a = 2 powi (a - int k) * 2 ^ k"
  using power_int_add[of "2::real" "a - int k" "int k"] by simp

lemma powi_52: "(2::real) powi (ilog2 x) = 2 powi (ilog2 x - 52) * 2 ^ 52"
  using powi_shift[of "ilog2 x" 52] by simp

lemma powi_53: "(2::real) powi (ilog2 x + 1) = 2 powi (ilog2 x - 52) * 2 ^ 53"
  using powi_shift[of "ilog2 x + 1" 53] by simp

lemma mantissa_bounds:
  assumes "0 < x"
  shows "2 ^ 52 \<le> x / 2 powi (ilog2 x - 52)" and "x / 2 powi (ilog2 x - 52) < 2 ^ 53"
proof -
  let ?p = "(2::real) powi (ilog2 x - 52)"
  have pos: "0 < ?p" by simp
  have a: "?p * 2 ^ 52 \<le> x" using ilog2_bounds(1)[OF assms] by (simp only: powi_52)
  have b: "x < ?p * 2 ^ 53" using ilog2_bounds(2)[OF assms] by (simp only: powi_53)
  show "2 ^ 52 \<le> x / ?p" using a pos by (simp add: pos_le_divide_eq mult.commute)
  show "x / ?p < 2 ^ 53" using b pos by (simp add: pos_divide_less_eq mult.commute)
qed

lemma rne_mantissa:
  assumes "0 < x"
  shows "2 ^ 52 \<le> rne (x / 2 powi (ilog2 x - 52))" and "rne (x / 2 powi (ilog2 x - 52)) \<le> 2 ^ 53"
proof -
  have "real_of_int (2 ^ 52) \<le> x / 2 powi (ilog2 x - 52)"
    using mantissa_bounds(1)[OF assms] by simp
  then show "2 ^ 52 \<le> rne (x / 2 powi (ilog2 x - 52))" by (rule rne_ge_int)
  have "x / 2 powi (ilog2 x - 52) \<le> real_of_int (2 ^ 53)"
    using mantissa_bounds(2)[OF assms] by simp
  then show "rne (x / 2 powi (ilog2 x - 52)) \<le> 2 ^ 53" by (rule rne_le_int)
qed

lemma fl_between:
  assumes "0 < x"
  shows "2 powi (ilog2 x) \<le> fl x" and "fl x \<le> 2 powi (ilog2 x + 1)"
proof -
  let ?p = "(2::real) powi (ilog2 x - 52)"
  let ?m = "rne (x / ?p)"
  have pos: "0 < ?p" by simp
  have e1: "(2::real) powi (ilog2 x) = 2 ^ 52 * ?p"
    by (simp only: powi_52 mult.commute)
  have e2: "(2::real) powi (ilog2 x + 1) = 2 ^ 53 * ?p"
    by (simp only: powi_53 mult.commute)
  have "(2::real) ^ 52 \<le> real_of_int ?m"
    using rne_mantissa(1)[OF assms] by (metis of_int_le_iff of_int_numeral of_int_power)
  then have "2 ^ 52 * ?p \<le> real_of_int ?m * ?p"
    using pos by (intro mult_right_mono) simp_all
  then show "2 powi (ilog2 x) \<le> fl x" by (simp only: e1 fl_pos_eq[OF assms])
  have "real_of_int ?m \<le> (2::real) ^ 53"
    using rne_mantissa(2)[OF assms] by (metis of_int_le_iff of_int_numeral of_int_power)
  then have "real_of_int ?m * ?p \<le> 2 ^ 53 * ?p"
    using pos by (intro mult_right_mono) simp_all
  then show "fl x \<le> 2 powi (ilog2 x + 1)" by (simp only: e2 fl_pos_eq[OF assms])
qed

lemma fl_pos: "0 < x \<Longrightarrow> 0 < fl x"
  using fl_between(1)[of x] zero_less_power_int[of "2::real" "ilog2 x"] by linarith


lemma fl_nonneg: "0 \<le> x \<Longrightarrow> 0 \<le> fl x"
  using fl_pos[of x] by (cases "x = 0") (simp_all add: fl_zero)






lemma fl_error:
  assumes "0 < x"
  shows "fl x \<le> x + x / 2 ^ 53" and "x - x / 2 ^ 53 \<le> fl x"
proof -
  let ?p = "(2::real) powi (ilog2 x - 52)"
  let ?m = "x / ?p"
  have pos: "0 < ?p" by simp
  have xm: "?m * ?p = x" by simp
  have "?p * 2 ^ 52 \<le> x" using ilog2_bounds(1)[OF assms] by (simp only: powi_52)
  then have half: "?p / 2 \<le> x / 2 ^ 53" by simp
  have "real_of_int (rne ?m) * ?p \<le> (?m + 1/2) * ?p"
    using rne_upper[of ?m] pos by (intro mult_right_mono) simp_all
  also have "\<dots> = x + ?p / 2" by (simp add: distrib_right)
  finally have "fl x \<le> x + ?p / 2" by (simp only: fl_pos_eq[OF assms])
  then show "fl x \<le> x + x / 2 ^ 53" using half by linarith
  have "(?m - 1/2) * ?p \<le> real_of_int (rne ?m) * ?p"
    using rne_lower[of ?m] pos by (intro mult_right_mono) simp_all
  moreover have "(?m - 1/2) * ?p = x - ?p / 2" by (simp add: left_diff_distrib)
  ultimately have "x - ?p / 2 \<le> fl x" by (simp only: fl_pos_eq[OF assms])
  then show "x - x / 2 ^ 53 \<le> fl x" using half by linarith
qed

lemma ilog2_less:
  assumes "0 < x" "x < 2 ^ k"
  shows "ilog2 x < int k"
proof (rule ccontr)
  assume "\<not> ilog2 x < int k"
  then have "int k \<le> ilog2 x" by simp
  then have "(2::real) powi (int k) \<le> 2 powi (ilog2 x)"
    by (intro power_int_increasing) simp_all
  then show False using ilog2_bounds(1)[OF assms(1)] assms(2) by simp
qed

text \<open>Scaling by the unit in the last place turns a number below \<open>2^53\<close> into an
  integer multiple.\<close>

lemma scaled_int:
  assumes "0 < x" "x < 2 ^ 53"
  shows "real_of_int k / 2 powi (ilog2 x - 52) = real_of_int (k * 2 ^ nat (52 - ilog2 x))"
proof -
  have le: "ilog2 x \<le> 52" using ilog2_less[OF assms] by simp
  have "(2::real) powi (ilog2 x - 52) = 2 powi (- int (nat (52 - ilog2 x)))"
    using le by simp
  also have "\<dots> = 1 / 2 ^ nat (52 - ilog2 x)"
    by (simp only: power_int_minus_divide power_int_of_nat)
  finally show ?thesis by simp
qed


lemma fl_of_int:
  assumes "0 \<le> k" "k < 2 ^ 53"
  shows "fl (of_int k) = of_int k"
proof (cases "k = 0")
  case True
  then show ?thesis by (simp add: fl_zero)
next
  case False
  let ?x = "real_of_int k"
  have pos: "0 < ?x" using assms(1) False by simp
  have lt: "?x < 2 ^ 53" using assms(2) by (metis of_int_less_iff of_int_numeral of_int_power)
  have "fl ?x = of_int (rne (?x / 2 powi (ilog2 ?x - 52))) * 2 powi (ilog2 ?x - 52)"
    by (rule fl_pos_eq[OF pos])
  also have "rne (?x / 2 powi (ilog2 ?x - 52)) = k * 2 ^ nat (52 - ilog2 ?x)"
    by (simp only: scaled_int[OF pos lt] rne_of_int)
  also have "real_of_int (k * 2 ^ nat (52 - ilog2 ?x)) = ?x / 2 powi (ilog2 ?x - 52)"
    by (rule scaled_int[OF pos lt, symmetric])
  finally show ?thesis by simp
qed



section \<open>Sums, extrema and percentile indices\<close>

lemma fl_one: "fl 1 = 1"
  using fl_of_int[of 1] by simp

lemma foldl_fadd_pos:
  "0 \<le> acc \<Longrightarrow> \<forall>t\<in>set ts. 0 < t \<Longrightarrow> 0 < acc \<or> ts \<noteq> [] \<Longrightarrow> 0 < foldl fadd acc ts"
proof (induction ts arbitrary: acc)
  case Nil
  then show ?case by simp
next
  case (Cons t ts)
  have "0 < acc + t" using Cons.prems by simp
  then have "0 < fadd acc t" unfolding fadd_def by (rule fl_pos)
  then show ?case using Cons.IH[of "fadd acc t"] Cons.prems by simp
qed

lemma fsum_pos: "ts \<noteq> [] \<Longrightarrow> \<forall>t\<in>set ts. 0 < t \<Longrightarrow> 0 < fsum ts"
  unfolding fsum_def by (rule foldl_fadd_pos) simp_all

lemma foldl_fadd_nonneg:
  "0 \<le> acc \<Longrightarrow> \<forall>t\<in>set ts. 0 \<le> t \<Longrightarrow> 0 \<le> foldl fadd acc ts"
proof (induction ts arbitrary: acc)
  case Nil
  then show ?case by simp
next
  case (Cons t ts)
  have "0 \<le> fadd acc t" unfolding fadd_def using Cons.prems by (intro fl_nonneg) simp
  then show ?case using Cons.IH[of "fadd acc t"] Cons.prems by simp
qed

lemma fsum_nonneg: "\<forall>t\<in>set ts. 0 \<le> t \<Longrightarrow> 0 \<le> fsum ts"
  unfolding fsum_def by (rule foldl_fadd_nonneg) simp_all

lemma foldl_fadd_zero: "\<forall>t\<in>set ts. t = 0 \<Longrightarrow> foldl fadd 0 ts = 0"
  by (induction ts) (simp_all add: fadd_def fl_zero)

lemma float_of_int_pos: "0 < n \<Longrightarrow> 0 < float_of_int n"
  unfolding float_of_int_def by (rule fl_pos) simp

lemma foldl_min: "foldl min (a::real) xs = Min (insert a (set xs))"
proof (induction xs arbitrary: a)
  case Nil
  then show ?case by simp
next
  case (Cons x xs)
  have "Min (insert a (insert x (set xs))) = Min (insert (min a x) (set xs))"
    by (cases "set xs = {}") (simp_all add: min.assoc min.commute min.left_commute)
  then show ?case using Cons.IH[of "min a x"] by simp
qed

lemma foldl_max: "foldl max (a::real) xs = Max (insert a (set xs))"
proof (induction xs arbitrary: a)
  case Nil
  then show ?case by simp
next
  case (Cons x xs)
  have "Max (insert a (insert x (set xs))) = Max (insert (max a x) (set xs))"
    by (cases "set xs = {}") (simp_all add: max.assoc max.commute max.left_commute)
  then show ?case using Cons.IH[of "max a x"] by simp
qed

lemma py_min_eq: "ts \<noteq> [] \<Longrightarrow> py_min ts = Inr (Min (set ts))"
  by (cases ts) (simp_all add: py_min_def foldl_min)

lemma py_max_eq: "ts \<noteq> [] \<Longrightarrow> py_max ts = Inr (Max (set ts))"
  by (cases ts) (simp_all add: py_max_def foldl_max)

lemma py_index_in_range:
  "0 \<le> i \<Longrightarrow> i < int (length xs) \<Longrightarrow> py_index xs i = Inr (xs ! nat i)"
  by (simp add: py_index_def)


lemma py_int_nonneg: "0 \<le> x \<Longrightarrow> py_int x = \<lfloor>x\<rfloor>"
  by (simp add: py_int_def)

lemma pct_index_bounds:
  assumes c: "0 < c" "c * ((1 + 1 / 2 ^ 53) * (1 + 1 / 2 ^ 53)) < 1" and n: "0 < n"
  shows "0 \<le> py_int (fmul (float_of_int (int n)) c)"
    and "py_int (fmul (float_of_int (int n)) c) < int n"
proof -
  define u :: real where "u = 1 + 1 / 2 ^ 53"
  have u: "0 < u" by (simp add: u_def)
  let ?a = "fl (real n)"
  let ?z = "?a * c"
  have npos: "0 < real n" using n by simp
  have apos: "0 < ?a" using npos by (rule fl_pos)
  have zpos: "0 < ?z" using apos c(1) by simp
  have grow: "y + y / 2 ^ 53 = y * u" for y :: real
    by (simp add: u_def distrib_left)
  have a_le: "?a \<le> real n * u"
    using fl_error(1)[OF npos] by (simp only: grow)
  have "fl ?z \<le> ?z * u"
    using fl_error(1)[OF zpos] by (simp only: grow)
  also have "?z * u \<le> (real n * u * c) * u"
    using a_le c(1) u by (intro mult_right_mono) simp_all
  also have "\<dots> = real n * (c * (u * u))" by simp
  also have "\<dots> < real n * 1"
    using c(2) npos unfolding u_def by (intro mult_strict_left_mono) simp_all
  finally have lt: "fl ?z < real n" by simp
  have ge: "0 \<le> fl ?z" using zpos by (intro fl_nonneg) simp
  have eq: "fmul (float_of_int (int n)) c = fl ?z"
    by (simp add: fmul_def float_of_int_def)
  show "0 \<le> py_int (fmul (float_of_int (int n)) c)"
    using ge by (simp add: eq py_int_nonneg)
  have "\<lfloor>fl ?z\<rfloor> < int n" using lt by (simp add: floor_less_iff)
  then show "py_int (fmul (float_of_int (int n)) c) < int n"
    using ge by (simp add: eq py_int_nonneg)
qed

lemma c95_value: "fl (95 / 100) = 4278419646001971 / 2 ^ 52"
  by code_simp

lemma c99_value: "fl (99 / 100) = 4458563631096791 / 2 ^ 52"
  by code_simp

lemma p95_index_bounds: "0 < n \<Longrightarrow> 0 \<le> p95_index n \<and> p95_index n < int n"
  unfolding p95_index_def c95_value
  by (intro conjI pct_index_bounds) simp_all

lemma p99_index_bounds: "0 < n \<Longrightarrow> 0 \<le> p99_index n \<and> p99_index n < int n"
  unfolding p99_index_def c99_value
  by (intro conjI pct_index_bounds) simp_all





section \<open>The latency analysis in closed form\<close>

lemma std_deviation_eq:
  assumes "ts \<noteq> []"
  shows "std_deviation ts =
           Inr (fpow_half (fl (fsum (map (\<lambda>t. fsq (fsub t (fl (fsum ts / float_of_int (int (length ts)))))) ts)
                               / float_of_int (int (length ts)))))"
proof -
  have "0 < float_of_int (int (length ts))" using assms by (intro float_of_int_pos) simp
  then have "float_of_int (int (length ts)) \<noteq> 0" by simp
  then show ?thesis by (simp add: std_deviation_def and_then_def fdiv_def)
qed

lemma consistency_score_eq:
  assumes "ts \<noteq> []" "\<forall>t\<in>set ts. 0 < t"
  shows "consistency_score ts =
           Inr (fsub 1 (fmul (fl (fsub (Max (set ts)) (Min (set ts)) / fsum ts))
                             (float_of_int (int (length ts)))))"
proof -
  have "fsum ts \<noteq> 0" using fsum_pos[OF assms] by simp
  then show ?thesis
    by (simp add: consistency_score_def and_then_def fdiv_def py_min_eq[OF assms(1)] py_max_eq[OF assms(1)])
qed

lemma median_index: "xs \<noteq> [] \<Longrightarrow> py_index xs (int (length xs) div 2) = Inr (xs ! (length xs div 2))"
proof -
  assume "xs \<noteq> []"
  then have "0 < int (length xs)" by simp
  then have "int (length xs) div 2 < int (length xs)" by linarith
  moreover have "0 \<le> int (length xs) div 2" by simp
  moreover have "nat (int (length xs) div 2) = length xs div 2" by (simp add: nat_div_distrib)
  ultimately show ?thesis by (simp add: py_index_def)
qed


lemma analyze_nonempty:
  fixes recorded :: "real list"
  defines "ts \<equiv> filter (\<lambda>t. 0 < t) recorded"
  assumes ne: "ts \<noteq> []"
  shows "analyze_latency_patterns recorded =
     Inr (map_of [(''min_latency'', Min (set ts)), (''max_latency'', Max (set ts)),
                  (''median_latency'', sort ts ! (length ts div 2)),
                  (''p95_latency'', sort ts ! nat (p95_index (length ts))),
                  (''p99_latency'', sort ts ! nat (p99_index (length ts))),
                  (''std_deviation'',
                   fpow_half (fl (fsum (map (\<lambda>t. fsq (fsub t (fl (fsum ts / float_of_int (int (length ts)))))) ts)
                               / float_of_int (int (length ts))))),
                  (''consistency_score'',
                   fsub 1 (fmul (fl (fsub (Max (set ts)) (Min (set ts)) / fsum ts))
                             (float_of_int (int (length ts)))))])"
proof -
  have rec_ne: "recorded \<noteq> []" using ne by (auto simp: ts_def)
  have pos: "\<forall>t\<in>set ts. 0 < t" by (simp add: ts_def)
  have len: "0 < length ts" using ne by simp
  have sne: "sort ts \<noteq> []" using ne by (metis length_sort length_0_conv)
  have med: "py_index (sort ts) (int (length ts) div 2) = Inr (sort ts ! (length ts div 2))"
    using median_index[OF sne] by simp
  have p95: "py_index (sort ts) (p95_index (length ts)) = Inr (sort ts ! nat (p95_index (length ts)))"
    using p95_index_bounds[OF len] by (intro py_index_in_range) simp_all
  have p99: "py_index (sort ts) (p99_index (length ts)) = Inr (sort ts ! nat (p99_index (length ts)))"
    using p99_index_bounds[OF len] by (intro py_index_in_range) simp_all
  show ?thesis
    using ne rec_ne
    unfolding analyze_latency_patterns_def Let_def ts_def[symmetric]
    by (simp add: and_then_def py_min_eq py_max_eq med p95 p99
          std_deviation_eq consistency_score_eq[OF ne pos])
qed

section \<open>Totality of the analysis\<close>



section \<open>The consistency score\<close>

lemma filter_positive_id: "\<forall>t\<in>set ts. (0::real) < t \<Longrightarrow> filter (\<lambda>t. 0 < t) ts = ts"
  by (induction ts) simp_all




section \<open>Median and percentiles\<close>




section \<open>Equal latencies\<close>

lemma fpow_half_zero: "fpow_half 0 = 0"
  by (simp add: fpow_half_def fl_zero)


lemma sort_replicate: "sort (replicate n (x::real)) = replicate n x"
  by (rule sorted_sort_id) simp

lemma equal_stats:
  assumes "0 < n" "0 < L"
  shows "analyze_latency_patterns (replicate n L) =
     Inr (map_of [(''min_latency'', L), (''max_latency'', L), (''median_latency'', L),
                  (''p95_latency'', L), (''p99_latency'', L),
                  (''std_deviation'',
                   fpow_half (fl (fsum (map (\<lambda>t. fsq (fsub t (fl (fsum (replicate n L) / float_of_int (int n)))))
                                         (replicate n L))
                               / float_of_int (int n)))),
                  (''consistency_score'',
                   fsub 1 (fmul (fl (fsub L L / fsum (replicate n L))) (float_of_int (int n))))])"
proof -
  have f: "filter (\<lambda>t. 0 < t) (replicate n L) = replicate n L"
    using assms(2) by (intro filter_positive_id) simp
  have ne: "filter (\<lambda>t. 0 < t) (replicate n L) \<noteq> []" using assms(1) by (simp add: f)
  have s: "set (replicate n L) = {L}" using assms(1) by simp
  have m: "n div 2 < n" using assms(1) by simp
  have p95: "nat (p95_index n) < n" using p95_index_bounds[OF assms(1)] by linarith
  have p99: "nat (p99_index n) < n" using p99_index_bounds[OF assms(1)] by linarith
  show ?thesis
    unfolding analyze_nonempty[OF ne] f
    by (simp add: s sort_replicate m p95 p99 del: replicate_eq_replicate)
qed


lemma fsum_replicate_zero: "fsum (replicate n 0) = 0"
  unfolding fsum_def by (rule foldl_fadd_zero) simp

lemma std_zero_if_mean_exact:
  assumes "fl (fsum (replicate n L) / float_of_int (int n)) = L"
  shows "fpow_half (fl (fsum (map (\<lambda>t. fsq (fsub t (fl (fsum (replicate n L) / float_of_int (int n)))))
                            (replicate n L))
                  / float_of_int (int n))) = 0"
proof -
  have z: "fsq (fsub L L) = 0"
    by (simp add: fsq_def fsub_def fl_zero)
  show ?thesis
    by (simp add: assms z fsum_replicate_zero fl_zero fpow_half_zero)
qed





section \<open>A failing responder\<close>

lemma query_krishna_topic_raises:
  assumes "cloudflare_worker self = Some worker"
    and "perf_counter rt w = (t0, w1)"
    and "worker question system_prompt w1 = (Inl e, w2)"
    and "perf_counter rt w2 = (t1, w3)"
  shows "query_krishna_topic rt question question_number self w =
           ((''Connection Error: '' @ str_exn e, fmul (fsub t1 t0) 1000),
            self\<lparr>connectivity_issues := connectivity_issues self + 1,
                 response_times := response_times self @ [fmul (fsub t1 t0) 1000],
                 total_tokens_estimated := total_tokens_estimated self
                   + (int (length (split_ws [] question))
                      + int (length (split_ws [] (''Connection Error: '' @ str_exn e))))\<rparr>,
            w3)"
  using assms by (simp add: query_krishna_topic_def Let_def)

text \<open>
  C1 fails on the code: for a prompt whose responder raises, the inner handler sets the
  response text and the failure tally, and execution continues to the second clock
  reading. With a responder that takes a quarter of a second to fail, the returned and
  recorded latency is 250 ms, not 0.0.
\<close>

theorem failed_query_latency_recorded:
  "fst (query_krishna_topic clock_runtime ''q'' 1 failing_demo 0) = (''Connection Error: boom'', 250)
   \<and> response_times (fst (snd (query_krishna_topic clock_runtime ''q'' 1 failing_demo 0))) = [250]
   \<and> connectivity_issues (fst (snd (query_krishna_topic clock_runtime ''q'' 1 failing_demo 0))) = 1
   \<and> successful_queries (fst (snd (query_krishna_topic clock_runtime ''q'' 1 failing_demo 0))) = 0"
  by code_simp

section \<open>A run in which every query fails\<close>

lemma fl_numeral: "numeral k < (2::int) ^ 53 \<Longrightarrow> fl (numeral k) = numeral k"
  using fl_of_int[of "numeral k"] by simp

lemma analyze_250_250:
  "analyze_latency_patterns [250, 250] =
     Inr (map_of [(''min_latency'', 250), (''max_latency'', 250), (''median_latency'', 250),
                  (''p95_latency'', 250), (''p99_latency'', 250), (''std_deviation'', 0),
                  (''consistency_score'', 1)])"
proof -
  have two: "[250, 250 :: real] = replicate 2 250" by (simp add: numeral_2_eq_2)
  have mean: "fl (fsum (replicate 2 250) / float_of_int (int 2)) = 250"
    by (simp add: numeral_2_eq_2 fsum_def fadd_def float_of_int_def fl_numeral)
  have cs: "fsub 1 (fmul (fl (fsub 250 250 / fsum (replicate 2 250))) (float_of_int 2)) = 1"
    by (simp add: fsub_def fmul_def fl_zero fl_one)
  show ?thesis
    unfolding two equal_stats[of 2 250, simplified] 
    using std_zero_if_mean_exact[OF mean] by (simp add: cs)
qed

lemma failing_run_fields:
  "results (fst (snd failing_run)) =
     [\<lparr> res_question_number = 1, res_question = ''a'', res_response_time = 250, res_answer_length = 22 \<rparr>,
      \<lparr> res_question_number = 2, res_question = ''b'', res_response_time = 250, res_answer_length = 22 \<rparr>]"
  "response_times (fst (snd failing_run)) = [250, 250]"
  "successful_queries (fst (snd failing_run)) = 0"
  "connectivity_issues (fst (snd failing_run)) = 2"
  "start_time (fst (snd failing_run)) = 0"
  unfolding failing_run_def by code_simp+


lemma generate_summary_failing_run:
  "generate_summary (fst (snd failing_run)) 2 =
     Inr (Some \<lparr> total_questions = 2, total_time = 2, successful = 0, failed = 2,
                 success_rate = 0, avg_response_time = 250, avg_answer_length = 22,
                 min_latency = 250, max_latency = 250, median_latency = 250,
                 p95_latency = 250, p99_latency = 250, std_dev = 0, consistency = 1,
                 processing_rate = 1 \<rparr>)"
  by (simp add: generate_summary_def Let_def and_then_def failing_run_fields analyze_250_250
        get_or_def fdiv_def int_truediv_def float_of_int_def fsum_def fadd_def fsub_def fmul_def
        fl_numeral fl_zero fl_one)

text \<open>
  C2 fails on the code. Two prompts are submitted to a responder that always raises,
  a quarter of a second after each call. The summary has \<open>successful = 0\<close> and
  \<open>failed = 2\<close> as claimed, but the latency statistics are those of the two times to
  failure (250 ms each), and the consistency score is 1: none is at the default 0.
\<close>

theorem all_failing_run_summary:
  "case run_queries_batch clock_runtime [''a'', ''b''] (1/2) 10 failing_demo 0 of
     Inl e \<Rightarrow> False
   | Inr (formatted, self', w') \<Rightarrow>
       (case generate_summary self' 2 of
          Inr (Some s) \<Rightarrow>
            total_questions s = 2 \<and> successful s = 0 \<and> failed s = 2
          \<and> min_latency s = 250 \<and> max_latency s = 250 \<and> median_latency s = 250
          \<and> p95_latency s = 250 \<and> p99_latency s = 250 \<and> std_dev s = 0 \<and> consistency s = 1
        | _ \<Rightarrow> False)"
proof -
  have "run_queries_batch clock_runtime [''a'', ''b''] (1/2) 10 failing_demo 0 = Inr failing_run"
    unfolding failing_run_def by (subst run_queries_batch_eq) simp_all
  then show ?thesis
    by (simp add: case_prod_beta generate_summary_failing_run)
qed

section \<open>Tallies and scenarios\<close>

text \<open>Against a responder that always raises, no query counts as successful and
  every query counts as failed, whatever the clock does.\<close>

lemma all_fail_tallies:
  assumes "\<forall>q sp w. \<exists>e. fst (worker q sp w) = Inl e"
  shows "cloudflare_worker self = Some worker \<Longrightarrow>
         successful_queries (fst (snd (process_batch rt delay tot i qs (f, self, w))))
           = successful_queries self
       \<and> connectivity_issues (fst (snd (process_batch rt delay tot i qs (f, self, w))))
           = connectivity_issues self + int (length qs)"
proof (induction qs arbitrary: i f self w)
  case Nil
  then show ?case by simp
next
  case (Cons q rest)
  let ?r = "query_krishna_topic rt q i self w"
  obtain e where e: "fst (worker q system_prompt (snd (perf_counter rt w))) = Inl e"
    using assms by blast
  have s: "successful_queries (fst (snd ?r)) = successful_queries self"
    and c: "connectivity_issues (fst (snd ?r)) = connectivity_issues self + 1"
    using query_krishna_topic_Some(2,3)[OF Cons.prems, where rt = rt and question = q
            and w = w and question_number = i]
    by (simp_all add: e)
  have wk: "cloudflare_worker (fst (snd ?r)) = Some worker"
    using Cons.prems by (simp add: query_krishna_topic_worker)
  show ?case
    unfolding process_batch_Cons Let_def
    by (subst Cons.IH, simp add: wk, subst Cons.IH, simp add: wk) (simp add: s c)
qed

text \<open>The two scenarios of the specification: three prompts answered with
  \<open>ok:\<close> and the prompt, and two prompts of which the second raises.\<close>

lemma scenario_echo:
  "case run_queries_batch clock_runtime [''a'', ''b'', ''c''] 0 10 echo_demo 0 of
     Inl e \<Rightarrow> False
   | Inr (formatted, self', w') \<Rightarrow>
       map (\<lambda>p. (p ! 1, p ! 7)) formatted
         = [(IntHole 1, StrHole ''ok:a''), (IntHole 2, StrHole ''ok:b''), (IntHole 3, StrHole ''ok:c'')]
     \<and> successful_queries self' = 3 \<and> connectivity_issues self' = 0"
  by code_simp

lemma scenario_flaky:
  "case run_queries_batch clock_runtime [''x'', ''y''] 0 10 (flaky_demo 0) 0 of
     Inl e \<Rightarrow> False
   | Inr (formatted, self', w') \<Rightarrow>
       map (\<lambda>p. (p ! 1, p ! 7)) formatted
         = [(IntHole 1, StrHole ''ok:x''), (IntHole 2, StrHole ''Connection Error: boom'')]
     \<and> successful_queries self' = 1 \<and> connectivity_issues self' = 1"
  by code_simp

end
